theory Spec2Isabelle
  imports Complex_Main
begin

section \<open>Parsed documents\<close>

text \<open>
  The scrapers query the tree that \<^verbatim>\<open>BeautifulSoup(response.content, "html.parser")\<close>
  builds. A node is either a piece of text (bs4's \<^verbatim>\<open>NavigableString\<close>) or a tag with a
  name, the tokens of its \<^verbatim>\<open>class\<close> attribute (bs4 stores this attribute as the list of
  its whitespace-separated values), its other attributes (the items of the tag's
  \<^verbatim>\<open>attrs\<close> dict, string valued) and its children in document order. The document
  itself is a tag named \<^verbatim>\<open>[document]\<close>. The text nodes of the model are the strings that
  \<^verbatim>\<open>get_text\<close> yields; comments and the contents of scripts and styles, which it
  leaves out, are not nodes of the model.

  Text is a Python \<^verbatim>\<open>str\<close>, a sequence of Unicode code points, since the program strips
  it by Unicode whitespace. Names, URLs and attribute values, which the program only
  compares and concatenates, are kept as \<open>string\<close>.
\<close>

type_synonym pystr = "nat list"

text \<open>The code points of a text written in ASCII.\<close>

definition codepoints :: "string \<Rightarrow> pystr" where
  "codepoints s = map of_char s"

datatype node =
    NavigableString pystr
  | Tag string "string list" "(string \<times> string) list" "node list"

text \<open>\<^verbatim>\<open>tag.descendants\<close>: every node below the tag, in document order (pre-order).\<close>

fun descendants :: "node \<Rightarrow> node list" where
  "descendants (NavigableString s) = []"
| "descendants (Tag name classes attrs children) =
     concat (map (\<lambda>c. c # descendants c) children)"

fun join :: "string \<Rightarrow> string list \<Rightarrow> string" where
  "join sep [] = []"
| "join sep [x] = x"
| "join sep (x # y # ys) = x @ sep @ join sep (y # ys)"

text \<open>
  How bs4 matches the filter \<^verbatim>\<open>{"class": value}\<close> for a value without spaces: some
  token of the tag's class list equals the value, or the tokens joined by one space do.
\<close>

definition class_matches :: "string list \<Rightarrow> string \<Rightarrow> bool" where
  "class_matches classes v \<longleftrightarrow> v \<in> set classes \<or> join '' '' classes = v"

fun is_tag :: "node \<Rightarrow> string \<Rightarrow> bool" where
  "is_tag (NavigableString s) name = False"
| "is_tag (Tag n classes attrs children) name = (n = name)"

fun has_class :: "node \<Rightarrow> string \<Rightarrow> bool" where
  "has_class (NavigableString s) v = False"
| "has_class (Tag n classes attrs children) v = class_matches classes v"

text \<open>\<^verbatim>\<open>tag.find(name, {"class": v})\<close>: the first matching descendant, or None.\<close>

definition find_tag :: "node \<Rightarrow> string \<Rightarrow> string \<Rightarrow> node option" where
  "find_tag t name v = List.find (\<lambda>d. is_tag d name \<and> has_class d v) (descendants t)"

text \<open>\<^verbatim>\<open>tag.find_all(name)\<close>: all descendant tags of that name, in document order.\<close>

definition find_all :: "node \<Rightarrow> string \<Rightarrow> node list" where
  "find_all t name = filter (\<lambda>d. is_tag d name) (descendants t)"

text \<open>\<^verbatim>\<open>tag.get(key)\<close>: the attribute's value, or None.\<close>

fun tag_get :: "node \<Rightarrow> string \<Rightarrow> string option" where
  "tag_get (NavigableString s) key = None"
| "tag_get (Tag n classes attrs children) key = map_of attrs key"

text \<open>
  The text pieces that \<^verbatim>\<open>get_text\<close> collects: for a tag those of its descendants, in
  document order; for a text node the node itself.
\<close>

fun node_string :: "node \<Rightarrow> pystr list" where
  "node_string (NavigableString s) = [s]"
| "node_string (Tag n classes attrs children) = []"

fun all_strings :: "node \<Rightarrow> pystr list" where
  "all_strings (NavigableString s) = [s]"
| "all_strings (Tag n classes attrs children) =
     concat (map node_string (descendants (Tag n classes attrs children)))"

text \<open>
  Python's \<^verbatim>\<open>str.strip()\<close> removes leading and trailing whitespace, the code points for
  which \<^verbatim>\<open>str.isspace\<close> holds: U+0009 to U+000D, U+001C to U+0020, U+0085, U+00A0,
  U+1680, U+2000 to U+200A, U+2028, U+2029, U+202F, U+205F and U+3000.
\<close>

definition is_space :: "nat \<Rightarrow> bool" where
  "is_space cp \<longleftrightarrow>
     cp \<in> {9, 10, 11, 12, 13, 28, 29, 30, 31, 32, 133, 160, 5760,
           8232, 8233, 8239, 8287, 12288} \<or> (8192 \<le> cp \<and> cp \<le> 8202)"

definition strip :: "pystr \<Rightarrow> pystr" where
  "strip s = rev (dropWhile is_space (rev (dropWhile is_space s)))"

text \<open>
  \<^verbatim>\<open>get_text()\<close> (alias \<^verbatim>\<open>getText\<close>) joins the text pieces with the empty separator.
  With \<^verbatim>\<open>strip=True\<close> bs4 strips every piece on its own and leaves out the pieces that
  are empty afterwards, then joins.
\<close>

definition get_text :: "node \<Rightarrow> pystr" where
  "get_text t = concat (all_strings t)"

definition get_text_strip :: "node \<Rightarrow> pystr" where
  "get_text_strip t = concat (filter (\<lambda>s. s \<noteq> []) (map strip (all_strings t)))"

text \<open>
  Truth value of a parsed document or tag. bs4 defines \<^verbatim>\<open>Tag.__bool__\<close> as
  \<^verbatim>\<open>return True\<close> ("A tag is non-None even if it has no contents"), and Python uses
  \<^verbatim>\<open>__bool__\<close> before \<^verbatim>\<open>__len__\<close>.
\<close>

definition tag_bool :: "node \<Rightarrow> bool" where
  "tag_bool t = True"

text \<open>
  Truth value of a node handed to \<open>extract_text\<close>: a text node is a \<^verbatim>\<open>str\<close> and is
  true when it is not empty; a tag is true.
\<close>

fun node_bool :: "node \<Rightarrow> bool" where
  "node_bool (NavigableString s) = (s \<noteq> [])"
| "node_bool (Tag n classes attrs children) = tag_bool (Tag n classes attrs children)"

section \<open>The world outside the program\<close>

datatype error = AttributeError | TypeError | ValueError | OverflowError | OtherError

text \<open>
  What one \<^verbatim>\<open>requests.get\<close> can do: raise a \<^verbatim>\<open>RequestException\<close> (timeout, connection
  error, ...), raise something that is not a \<^verbatim>\<open>RequestException\<close>, or return a response
  with a status code and a body. The body is given as the tree that
  \<^verbatim>\<open>html.parser\<close> makes of it.
\<close>

datatype get_outcome = Request_exception | Other_exception | Response nat node

text \<open>
  The environment answers the requests and supplies the random numbers:
  \<open>respond e url n\<close> is the outcome of the \<open>n\<close>-th GET of the run (from 0) when it asks
  for \<open>url\<close>, and \<open>rand e n\<close> is the \<open>n\<close>-th value of \<^verbatim>\<open>random.random()\<close>.
\<close>

record env =
  respond :: "string \<Rightarrow> nat \<Rightarrow> get_outcome"
  rand :: "nat \<Rightarrow> real"

text \<open>
  What the program does to the world, in the order it does it: a sleep and its
  duration, a GET with its URL, headers and timeout, the warning of \<open>make_request\<close>
  (attempt number and \<open>max_retries\<close>), its error entry, and the warning of
  \<open>extract_text\<close>.
\<close>

datatype event =
    Sleep real
  | Get string "(string \<times> string) list" int
  | Log_warning int int
  | Log_error string int
  | Log_text_warning

record world =
  trace :: "event list"
  gets :: nat
  draws :: nat

text \<open>\<^verbatim>\<open>random.uniform(a, b)\<close> is \<^verbatim>\<open>a + (b - a) * random()\<close>.\<close>

definition uniform :: "real \<Rightarrow> real \<Rightarrow> real \<Rightarrow> real" where
  "uniform a b u = a + (b - a) * u"

definition random_uniform :: "env \<Rightarrow> real \<times> real \<Rightarrow> world \<Rightarrow> real \<times> world" where
  "random_uniform e r w =
     (uniform (fst r) (snd r) (rand e (draws w)), w\<lparr>draws := Suc (draws w)\<rparr>)"

text \<open>
  \<^verbatim>\<open>time.sleep(d)\<close> first converts the duration to a signed 64-bit number of
  nanoseconds and raises \<^verbatim>\<open>OverflowError\<close> when it does not fit, then raises
  \<^verbatim>\<open>ValueError\<close> for a negative duration, and otherwise sleeps, which is recorded
  with the duration. So the durations it accepts are those from 0 to
  9223372036.854775807 seconds: \<open>2 ^ 33\<close> is accepted, \<open>2 ^ 34\<close> is not.
\<close>

definition sleep_accepts :: "real \<Rightarrow> bool" where
  "sleep_accepts d \<longleftrightarrow> 0 \<le> d \<and> d * 1000000000 \<le> 9223372036854775807"

definition time_sleep :: "real \<Rightarrow> world \<Rightarrow> error option \<times> world" where
  "time_sleep d w =
     (if d * 1000000000 < - 9223372036854775808 \<or> 9223372036854775807 < d * 1000000000
      then (Some OverflowError, w)
      else if d < 0 then (Some ValueError, w)
      else (None, w\<lparr>trace := trace w @ [Sleep d]\<rparr>))"

definition requests_get ::
  "env \<Rightarrow> string \<Rightarrow> (string \<times> string) list \<Rightarrow> int \<Rightarrow> world \<Rightarrow> get_outcome \<times> world" where
  "requests_get e url hs t w =
     (respond e url (gets w), w\<lparr>trace := trace w @ [Get url hs t], gets := Suc (gets w)\<rparr>)"

text \<open>\<^verbatim>\<open>response.raise_for_status()\<close> raises \<^verbatim>\<open>HTTPError\<close> for the codes 400 to 599.\<close>

definition raise_for_status :: "nat \<Rightarrow> bool" where
  "raise_for_status status \<longleftrightarrow> 400 \<le> status \<and> status < 600"

definition log_warning :: "int \<Rightarrow> int \<Rightarrow> world \<Rightarrow> world" where
  "log_warning a n w = w\<lparr>trace := trace w @ [Log_warning a n]\<rparr>"

definition log_error :: "string \<Rightarrow> int \<Rightarrow> world \<Rightarrow> world" where
  "log_error url n w = w\<lparr>trace := trace w @ [Log_error url n]\<rparr>"

section \<open>BaseScraper\<close>

record scraper =
  base_url :: string
  headers :: "(string \<times> string) list"
  max_retries :: int
  timeout :: int
  delay_range :: "real \<times> real"
  news_category :: "string list"

definition default_headers :: "(string \<times> string) list" where
  "default_headers =
     [(''User-Agent'', ''Mozilla/5.0 (Windows NT 10.0; Win64; x64) AppleWebKit/537.36 (KHTML, like Gecko) Chrome/91.0.4472.124 Safari/537.36''),
      (''Accept-Language'', ''en-US,en;q=0.9'')]"

text \<open>
  \<^verbatim>\<open>BaseScraper.__init__\<close>; \<^verbatim>\<open>headers or {...}\<close> takes the default for None and for the
  empty dict. The field \<open>news_category\<close> belongs to the subclass and starts empty.
\<close>

definition BaseScraper ::
  "string \<Rightarrow> (string \<times> string) list option \<Rightarrow> int \<Rightarrow> int \<Rightarrow> real \<times> real \<Rightarrow> scraper" where
  "BaseScraper url hs retries t delays =
     \<lparr>base_url = url,
      headers = (case hs of None \<Rightarrow> default_headers
                 | Some h \<Rightarrow> if h = [] then default_headers else h),
      max_retries = retries, timeout = t, delay_range = delays, news_category = []\<rparr>"

datatype 'a flow = Return 'a | Raise error | Continue

text \<open>
  The \<^verbatim>\<open>except requests.exceptions.RequestException\<close> block of \<open>make_request\<close>. What
  the backoff sleep raises leaves the block and the function.
\<close>

definition except_handler :: "scraper \<Rightarrow> string \<Rightarrow> int \<Rightarrow> world \<Rightarrow> node option flow \<times> world" where
  "except_handler c url attempt w =
     (let w1 = log_warning (attempt + 1) (max_retries c) w in
      if attempt = max_retries c - 1
      then (Return None, log_error url (max_retries c) w1)
      else (case time_sleep (2 ^ nat attempt) w1 of
              (Some x, w2) \<Rightarrow> (Raise x, w2)
            | (None, w2) \<Rightarrow> (Continue, w2)))"

text \<open>
  One pass through the body of the \<^verbatim>\<open>for attempt in range(self.max_retries)\<close> loop.
  The delay sleep stands inside the \<^verbatim>\<open>try\<close>, but what it raises is no
  \<^verbatim>\<open>RequestException\<close>, so it is not caught.
\<close>

definition attempt_body ::
  "env \<Rightarrow> scraper \<Rightarrow> string \<Rightarrow> int \<Rightarrow> world \<Rightarrow> node option flow \<times> world" where
  "attempt_body e c url attempt w =
     (let (d, w1) = random_uniform e (delay_range c) w in
      case time_sleep d w1 of
        (Some x, w2) \<Rightarrow> (Raise x, w2)
      | (None, w2) \<Rightarrow>
          (let (r, w3) = requests_get e url (headers c) (timeout c) w2
           in case r of
                Other_exception \<Rightarrow> (Raise OtherError, w3)
              | Request_exception \<Rightarrow> except_handler c url attempt w3
              | Response status doc \<Rightarrow>
                  if raise_for_status status then except_handler c url attempt w3
                  else (Return (Some doc), w3)))"

fun request_loop ::
  "env \<Rightarrow> scraper \<Rightarrow> string \<Rightarrow> int list \<Rightarrow> world \<Rightarrow> (error + node option) \<times> world" where
  "request_loop e c url [] w = (Inr None, w)"
| "request_loop e c url (attempt # rest) w =
     (case attempt_body e c url attempt w of
        (Return v, w') \<Rightarrow> (Inr v, w')
      | (Raise x, w') \<Rightarrow> (Inl x, w')
      | (Continue, w') \<Rightarrow> request_loop e c url rest w')"

text \<open>\<^verbatim>\<open>range(self.max_retries)\<close> is the list \<open>[0..max_retries - 1]\<close>, empty for \<open>max_retries \<le> 0\<close>.\<close>

definition make_request ::
  "env \<Rightarrow> scraper \<Rightarrow> string \<Rightarrow> world \<Rightarrow> (error + node option) \<times> world" where
  "make_request e c url w = request_loop e c url [0..max_retries c - 1] w"

text \<open>
  The argument of \<open>extract_text\<close> is typed \<^verbatim>\<open>Any\<close>: None, a node of a parsed document
  (a tag or a text node), or some other object, of which only its truth value matters
  here since it has no \<^verbatim>\<open>get_text\<close> method.
\<close>

datatype element = PyNone | PyNode node | PyObject bool

fun element_bool :: "element \<Rightarrow> bool" where
  "element_bool PyNone = False"
| "element_bool (PyNode t) = node_bool t"
| "element_bool (PyObject b) = b"

fun element_get_text_strip :: "element \<Rightarrow> error + pystr" where
  "element_get_text_strip (PyNode t) = Inr (get_text_strip t)"
| "element_get_text_strip PyNone = Inl AttributeError"
| "element_get_text_strip (PyObject b) = Inl AttributeError"

text \<open>
  \<open>extract_text\<close>: the result of the \<^verbatim>\<open>try\<close> body, and \<^verbatim>\<open>except Exception\<close>, which
  logs a warning and turns every error into the default.
\<close>

definition extract_text_try :: "element \<Rightarrow> pystr \<Rightarrow> error + pystr" where
  "extract_text_try element dflt =
     (if element_bool element then element_get_text_strip element else Inr dflt)"

definition extract_text :: "element \<Rightarrow> pystr \<Rightarrow> world \<Rightarrow> (error + pystr) \<times> world" where
  "extract_text element dflt w =
     (case extract_text_try element dflt of
        Inr s \<Rightarrow> (Inr s, w)
      | Inl x \<Rightarrow> (Inr dflt, w\<lparr>trace := trace w @ [Log_text_warning]\<rparr>))"

section \<open>ThaiRathNewsScraper\<close>

definition ThaiRathNewsScraper :: scraper where
  "ThaiRathNewsScraper =
     (BaseScraper ''https://www.thairath.co.th/news/'' None 3 10 (1, 3))
     \<lparr>news_category := [''royal'', ''society'', ''politic'', ''money'', ''foreign'', ''crime'']\<rparr>"

text \<open>
  \<^verbatim>\<open>if not soup\<close> for an optional document. In the two extractors below, the branch
  for a None that passes this test is what Python would do (an attribute lookup on
  None); it is never taken, since None is false.
\<close>

fun soup_bool :: "node option \<Rightarrow> bool" where
  "soup_bool None = False"
| "soup_bool (Some t) = tag_bool t"

fun content_loop :: "node list \<Rightarrow> pystr \<Rightarrow> pystr" where
  "content_loop [] new_content = new_content"
| "content_loop (line # rest) new_content = content_loop rest (new_content @ get_text line)"

definition scrape_news_content ::
  "env \<Rightarrow> scraper \<Rightarrow> string \<Rightarrow> world \<Rightarrow> (error + pystr option) \<times> world" where
  "scrape_news_content e c url w =
     (case make_request e c url w of
        (Inl x, w') \<Rightarrow> (Inl x, w')
      | (Inr soup, w') \<Rightarrow>
          if \<not> soup_bool soup then (Inr None, w')
          else (case soup of
                  None \<Rightarrow> (Inl AttributeError, w')
                | Some doc \<Rightarrow>
                    (case find_tag doc ''div'' ''article-body'' of
                       None \<Rightarrow> (Inl AttributeError, w')
                     | Some body \<Rightarrow> (Inr (Some (content_loop (find_all body ''p'') [])), w'))))"

record news_item =
  title :: "string option"
  link :: string
  news_type :: string
  content :: "pystr option"

text \<open>How an f-string prints the result of \<^verbatim>\<open>news.get('href')\<close>.\<close>

fun py_str :: "string option \<Rightarrow> string" where
  "py_str None = ''None''"
| "py_str (Some s) = s"

fun highlight_loop ::
  "env \<Rightarrow> scraper \<Rightarrow> string \<Rightarrow> string \<Rightarrow> node list \<Rightarrow> news_item list \<Rightarrow> world
   \<Rightarrow> (error + news_item list) \<times> world" where
  "highlight_loop e c url category [] highlight_news_data w = (Inr highlight_news_data, w)"
| "highlight_loop e c url category (news # rest) highlight_news_data w =
     (let news_content_link = url @ py_str (tag_get news ''href'') in
      case scrape_news_content e c news_content_link w of
        (Inl x, w') \<Rightarrow> (Inl x, w')
      | (Inr text, w') \<Rightarrow>
          highlight_loop e c url category rest
            (highlight_news_data @
               [\<lparr>title = tag_get news ''title'', link = news_content_link,
                 news_type = category, content = text\<rparr>]) w')"

definition scrape_highlight_news ::
  "env \<Rightarrow> scraper \<Rightarrow> string \<Rightarrow> string \<Rightarrow> world \<Rightarrow> (error + news_item list option) \<times> world" where
  "scrape_highlight_news e c url category w =
     (case make_request e c url w of
        (Inl x, w') \<Rightarrow> (Inl x, w')
      | (Inr soup, w') \<Rightarrow>
          if \<not> soup_bool soup then (Inr None, w')
          else (case soup of
                  None \<Rightarrow> (Inl AttributeError, w')
                | Some doc \<Rightarrow>
                    (case find_tag doc ''div'' ''slick-track'' of
                       None \<Rightarrow> (Inl AttributeError, w')
                     | Some track \<Rightarrow>
                         (case highlight_loop e c url category (find_all track ''a'') [] w' of
                            (Inl x, w'') \<Rightarrow> (Inl x, w'')
                          | (Inr items, w'') \<Rightarrow> (Inr (Some items), w'')))))"

text \<open>
  A call \<^verbatim>\<open>self.scrape_highlight_news(*args)\<close>: Python binds the positional arguments to
  the parameters \<open>url\<close> and \<open>category\<close> and raises \<^verbatim>\<open>TypeError\<close> when their number is not
  two, before the body runs.
\<close>

fun call_scrape_highlight_news ::
  "env \<Rightarrow> scraper \<Rightarrow> string list \<Rightarrow> world \<Rightarrow> (error + news_item list option) \<times> world" where
  "call_scrape_highlight_news e c [url, category] w = scrape_highlight_news e c url category w"
| "call_scrape_highlight_news e c args w = (Inl TypeError, w)"

fun scrape_loop :: "env \<Rightarrow> scraper \<Rightarrow> string list \<Rightarrow> world \<Rightarrow> (error + unit) \<times> world" where
  "scrape_loop e c [] w = (Inr (), w)"
| "scrape_loop e c (category # rest) w =
     (case call_scrape_highlight_news e c [base_url c @ category] w of
        (Inl x, w') \<Rightarrow> (Inl x, w')
      | (Inr r, w') \<Rightarrow>
          (let (d, w1) = random_uniform e (delay_range c) w' in
           case time_sleep d w1 of
             (Some x, w2) \<Rightarrow> (Inl x, w2)
           | (None, w2) \<Rightarrow> scrape_loop e c rest w2))"

definition scrape :: "env \<Rightarrow> scraper \<Rightarrow> string \<Rightarrow> world \<Rightarrow> (error + unit) \<times> world" where
  "scrape e c url w = scrape_loop e c (news_category c) w"

section \<open>Describing runs of \<open>make_request\<close>\<close>

text \<open>
  The outcome of the \<open>n\<close>-th GET, as \<open>make_request\<close> sees it: the attempt fails when
  the request raises a \<^verbatim>\<open>RequestException\<close> or the status check does, and succeeds
  with document \<open>d\<close> when a response with an accepted status carries it.
\<close>

definition attempt_fails :: "env \<Rightarrow> string \<Rightarrow> nat \<Rightarrow> bool" where
  "attempt_fails e url n =
     (case respond e url n of
        Request_exception \<Rightarrow> True
      | Other_exception \<Rightarrow> False
      | Response status doc \<Rightarrow> raise_for_status status)"

definition attempt_succeeds :: "env \<Rightarrow> string \<Rightarrow> nat \<Rightarrow> node \<Rightarrow> bool" where
  "attempt_succeeds e url n d =
     (case respond e url n of
        Request_exception \<Rightarrow> False
      | Other_exception \<Rightarrow> False
      | Response status doc \<Rightarrow> \<not> raise_for_status status \<and> doc = d)"

text \<open>The delay slept before an attempt that uses the \<open>n\<close>-th random number.\<close>

definition base_delay :: "scraper \<Rightarrow> env \<Rightarrow> nat \<Rightarrow> real" where
  "base_delay c e n = uniform (fst (delay_range c)) (snd (delay_range c)) (rand e n)"

text \<open>
  What the retry policy prescribes for attempt \<open>k\<close> when it fails and is not the last:
  the base delay, the GET, the warning, and a backoff of \<open>2 ^ k\<close>. Here \<open>r\<close> is the
  number of random numbers drawn before the call.
\<close>

definition failed_round :: "scraper \<Rightarrow> env \<Rightarrow> string \<Rightarrow> nat \<Rightarrow> nat \<Rightarrow> event list" where
  "failed_round c e url r k =
     [Sleep (base_delay c e (r + k)), Get url (headers c) (timeout c),
      Log_warning (int k + 1) (max_retries c), Sleep (2 ^ k)]"

text \<open>The world after \<open>m\<close> such rounds.\<close>

definition after_rounds :: "scraper \<Rightarrow> env \<Rightarrow> string \<Rightarrow> world \<Rightarrow> nat \<Rightarrow> world" where
  "after_rounds c e url w m =
     \<lparr>trace = trace w @ concat (map (failed_round c e url (draws w)) [0..<m]),
      gets = gets w + m, draws = draws w + m\<rparr>"



text \<open>
  The world after \<open>k\<close> failed rounds and one more attempt that leaves the loop at once
  (a success, or an exception that is not caught).
\<close>

definition success_world :: "scraper \<Rightarrow> env \<Rightarrow> string \<Rightarrow> world \<Rightarrow> nat \<Rightarrow> world" where
  "success_world c e url w k =
     \<lparr>trace = trace w @ concat (map (failed_round c e url (draws w)) [0..<k]) @
        [Sleep (base_delay c e (draws w + k)), Get url (headers c) (timeout c)],
      gets = gets w + k + 1, draws = draws w + k + 1\<rparr>"

text \<open>The world after every one of the \<open>max_retries\<close> attempts has failed.\<close>

definition exhausted_world :: "scraper \<Rightarrow> env \<Rightarrow> string \<Rightarrow> world \<Rightarrow> world" where
  "exhausted_world c e url w =
     \<lparr>trace = trace w @
        concat (map (failed_round c e url (draws w)) [0..<nat (max_retries c) - 1]) @
        [Sleep (base_delay c e (draws w + (nat (max_retries c) - 1))),
         Get url (headers c) (timeout c),
         Log_warning (max_retries c) (max_retries c), Log_error url (max_retries c)],
      gets = gets w + nat (max_retries c), draws = draws w + nat (max_retries c)\<rparr>"

section \<open>Concrete runs\<close>

definition world0 :: world where
  "world0 = \<lparr>trace = [], gets = 0, draws = 0\<rparr>"

definition page_article :: node where
  "page_article =
     Tag ''[document]'' [] []
       [Tag ''div'' [''article-body''] []
          [Tag ''p'' [] [] [NavigableString (codepoints ''Part1'')],
           Tag ''p'' [] [] [NavigableString (codepoints ''Part2'')]]]"

text \<open>An endpoint that is down, and one that answers on the third request.\<close>

definition env_down :: env where
  "env_down = \<lparr>respond = (\<lambda>url n. Request_exception), rand = (\<lambda>n. 1 / 2)\<rparr>"

definition env_flaky :: env where
  "env_flaky =
     \<lparr>respond = (\<lambda>url n. if n < 2 then Request_exception else Response 200 page_article),
      rand = (\<lambda>n. 1 / 2)\<rparr>"

definition page_empty :: node where
  "page_empty = Tag ''[document]'' [] [] []"

text \<open>A page that has content but no element of class \<^verbatim>\<open>article-body\<close>.\<close>

definition page_no_body :: node where
  "page_no_body =
     Tag ''[document]'' [] []
       [Tag ''div'' [''error''] [] [Tag ''p'' [] [] [NavigableString (codepoints ''Not found'')]]]"

definition body_padded :: node where
  "body_padded =
     Tag ''div'' [''article-body''] [] [Tag ''p'' [] [] [NavigableString (codepoints ''  Part1  '')]]"

definition page_padded :: node where
  "page_padded = Tag ''[document]'' [] [] [body_padded]"

text \<open>A listing page with two links in the carousel.\<close>

definition page_listing :: node where
  "page_listing =
     Tag ''[document]'' [] []
       [Tag ''div'' [''slick-track''] []
          [Tag ''a'' [] [(''href'', ''/a1''), (''title'', ''T1'')] [],
           Tag ''a'' [] [(''href'', ''/a2''), (''title'', ''T2'')] []]]"

definition tag_hello :: node where
  "tag_hello = Tag ''p'' [] [] [NavigableString (codepoints ''  Hello World  '')]"

definition tag_nested :: node where
  "tag_nested =
     Tag ''p'' [] [] [NavigableString (codepoints ''Hello ''), Tag ''b'' [] [] [NavigableString (codepoints ''World'')]]"

text \<open>A server that answers every request with the same page.\<close>

definition env_serving :: "node \<Rightarrow> env" where
  "env_serving page = \<lparr>respond = (\<lambda>url n. Response 200 page), rand = (\<lambda>n. 1 / 2)\<rparr>"

text \<open>
  A site whose listing page is \<open>page_listing\<close> and whose every other page is the given
  article page.
\<close>

definition listing_url :: string where
  "listing_url = ''https://www.thairath.co.th/news/royal''"

definition env_site :: "node \<Rightarrow> env" where
  "env_site article =
     \<lparr>respond = (\<lambda>url n. if url = listing_url then Response 200 page_listing
                         else Response 200 article),
      rand = (\<lambda>n. 1 / 2)\<rparr>"

text \<open>
  The article text as the specification words it: the text of every paragraph of the
  body, each stripped of surrounding whitespace, joined without separator.
\<close>

definition stripped_paragraphs :: "node \<Rightarrow> pystr" where
  "stripped_paragraphs body = concat (map (\<lambda>p. strip (get_text p)) (find_all body ''p''))"




text \<open>Text nodes: one padded with no-break and ideographic spaces, and an empty one.\<close>

definition text_nbsp :: node where
  "text_nbsp = NavigableString (160 # codepoints ''Hello'' @ [160, 12288])"

definition text_empty :: node where
  "text_empty = NavigableString []"

section \<open>Properties of the retry loop\<close>

lemma time_sleep_accepts:
  assumes "sleep_accepts d"
  shows "time_sleep d w = (None, w\<lparr>trace := trace w @ [Sleep d]\<rparr>)"
proof -
  have "0 \<le> d * 1000000000" using assms by (simp add: sleep_accepts_def)
  then have "\<not> d * 1000000000 < - 9223372036854775808" by linarith
  then show ?thesis using assms by (simp add: time_sleep_def sleep_accepts_def)
qed


lemma backoff_accepts:
  assumes "k \<le> 33"
  shows "sleep_accepts (2 ^ k)"
proof -
  have "(2::real) ^ k \<le> 2 ^ 33"
    using assms by (intro power_increasing) simp_all
  then have "(2::real) ^ k * 1000000000 \<le> 2 ^ 33 * 1000000000"
    by (intro mult_right_mono) simp_all
  then show ?thesis by (simp add: sleep_accepts_def)
qed


lemma attempt_body_retry:
  assumes "attempt_fails e url (gets w)" and "attempt \<noteq> max_retries c - 1"
    and "sleep_accepts (base_delay c e (draws w))" and "sleep_accepts (2 ^ nat attempt)"
  shows "attempt_body e c url attempt w =
    (Continue,
     \<lparr>trace = trace w @ [Sleep (base_delay c e (draws w)), Get url (headers c) (timeout c),
         Log_warning (attempt + 1) (max_retries c), Sleep (2 ^ nat attempt)],
      gets = Suc (gets w), draws = Suc (draws w)\<rparr>)"
proof -
  have d: "sleep_accepts (uniform (fst (delay_range c)) (snd (delay_range c)) (rand e (draws w)))"
    using assms(3) by (simp add: base_delay_def)
  show ?thesis
    using assms(1,2)
    by (auto simp add: attempt_body_def attempt_fails_def random_uniform_def
        time_sleep_accepts [OF d] time_sleep_accepts [OF assms(4)]
        requests_get_def except_handler_def log_warning_def base_delay_def
        split: get_outcome.splits)
qed


lemma attempt_body_last:
  assumes "attempt_fails e url (gets w)" and "attempt = max_retries c - 1"
    and "sleep_accepts (base_delay c e (draws w))"
  shows "attempt_body e c url attempt w =
    (Return None,
     \<lparr>trace = trace w @ [Sleep (base_delay c e (draws w)), Get url (headers c) (timeout c),
         Log_warning (max_retries c) (max_retries c), Log_error url (max_retries c)],
      gets = Suc (gets w), draws = Suc (draws w)\<rparr>)"
proof -
  have d: "sleep_accepts (uniform (fst (delay_range c)) (snd (delay_range c)) (rand e (draws w)))"
    using assms(3) by (simp add: base_delay_def)
  show ?thesis
    using assms(1,2)
    by (auto simp add: attempt_body_def attempt_fails_def random_uniform_def
        time_sleep_accepts [OF d]
        requests_get_def except_handler_def log_warning_def log_error_def base_delay_def
        split: get_outcome.splits)
qed

lemma attempt_body_success:
  assumes "attempt_succeeds e url (gets w) d"
    and "sleep_accepts (base_delay c e (draws w))"
  shows "attempt_body e c url attempt w =
    (Return (Some d),
     \<lparr>trace = trace w @ [Sleep (base_delay c e (draws w)), Get url (headers c) (timeout c)],
      gets = Suc (gets w), draws = Suc (draws w)\<rparr>)"
proof -
  have d: "sleep_accepts (uniform (fst (delay_range c)) (snd (delay_range c)) (rand e (draws w)))"
    using assms(2) by (simp add: base_delay_def)
  show ?thesis
    using assms(1)
    by (simp add: attempt_body_def attempt_succeeds_def random_uniform_def
        time_sleep_accepts [OF d] requests_get_def base_delay_def split: get_outcome.splits)
qed



lemma after_rounds_0: "after_rounds c e url w 0 = w"
  by (simp add: after_rounds_def)

lemma after_rounds_sel:
  "gets (after_rounds c e url w m) = gets w + m"
  "draws (after_rounds c e url w m) = draws w + m"
  "trace (after_rounds c e url w m) = trace w @ concat (map (failed_round c e url (draws w)) [0..<m])"
  by (simp_all add: after_rounds_def)

lemma request_loop_rounds:
  assumes "int m \<le> max_retries c - 1"
    and "m \<le> 34"
    and "\<forall>j<m. attempt_fails e url (gets w + j)"
    and "\<forall>n. sleep_accepts (base_delay c e n)"
  shows "request_loop e c url [0..max_retries c - 1] w =
         request_loop e c url [int m..max_retries c - 1] (after_rounds c e url w m)"
  using assms(1,2,3)
proof (induction m)
  case 0
  then show ?case by (simp add: after_rounds_0)
next
  case (Suc m)
  let ?w = "after_rounds c e url w m"
  have le: "int m \<le> max_retries c - 1" and ne: "int m \<noteq> max_retries c - 1"
    using Suc.prems(1) by simp_all
  have fails: "attempt_fails e url (gets ?w)"
    using Suc.prems(3) by (simp add: after_rounds_sel)
  have delay: "sleep_accepts (base_delay c e (draws ?w))"
    using assms(4) by blast
  have "m \<le> 33" using Suc.prems(2) by simp
  then have backoff: "sleep_accepts (2 ^ nat (int m))"
    by (simp add: backoff_accepts)
  have step: "attempt_body e c url (int m) ?w = (Continue, after_rounds c e url w (Suc m))"
    unfolding attempt_body_retry [OF fails ne delay backoff]
    by (simp add: after_rounds_def failed_round_def)
  have "request_loop e c url [0..max_retries c - 1] w =
        request_loop e c url [int m..max_retries c - 1] ?w"
    using Suc.IH le Suc.prems(2,3) by simp
  also have "[int m..max_retries c - 1] = int m # [int m + 1..max_retries c - 1]"
    using le by (rule upto_rec1)
  also have "request_loop e c url (int m # [int m + 1..max_retries c - 1]) ?w =
        request_loop e c url [int m + 1..max_retries c - 1] (after_rounds c e url w (Suc m))"
    by (simp add: step)
  finally show ?case by (simp add: add.commute)
qed






lemma make_request_success:
  assumes "int k < max_retries c"
    and "k \<le> 34"
    and "\<forall>j<k. attempt_fails e url (gets w + j)"
    and "\<forall>n. sleep_accepts (base_delay c e n)"
    and "attempt_succeeds e url (gets w + k) d"
  shows "make_request e c url w = (Inr (Some d), success_world c e url w k)"
proof -
  let ?w = "after_rounds c e url w k"
  have le: "int k \<le> max_retries c - 1" using assms(1) by simp
  have ok: "attempt_succeeds e url (gets ?w) d"
    using assms(5) by (simp add: after_rounds_sel)
  have delay: "sleep_accepts (base_delay c e (draws ?w))"
    using assms(4) by blast
  have "make_request e c url w = request_loop e c url [int k..max_retries c - 1] ?w"
    unfolding make_request_def using le assms(2,3,4) by (rule request_loop_rounds)
  also have "[int k..max_retries c - 1] = int k # [int k + 1..max_retries c - 1]"
    using le by (rule upto_rec1)
  finally have loop: "make_request e c url w =
      request_loop e c url (int k # [int k + 1..max_retries c - 1]) ?w" .
  have step: "attempt_body e c url (int k) ?w = (Return (Some d), success_world c e url w k)"
    unfolding attempt_body_success [OF ok delay]
    by (simp add: success_world_def after_rounds_def)
  show ?thesis
    unfolding loop by (simp add: step)
qed


lemma make_request_exhausted:
  assumes "0 < max_retries c"
    and "max_retries c \<le> 35"
    and "\<forall>j<nat (max_retries c). attempt_fails e url (gets w + j)"
    and "\<forall>n. sleep_accepts (base_delay c e n)"
  shows "make_request e c url w = (Inr None, exhausted_world c e url w)"
proof -
  define k where "k = nat (max_retries c) - 1"
  let ?w = "after_rounds c e url w k"
  have k: "int k = max_retries c - 1" using assms(1) by (simp add: k_def)
  have k34: "k \<le> 34" using assms(2) by (simp add: k_def)
  have "k < nat (max_retries c)" using assms(1) by (simp add: k_def)
  then have "attempt_fails e url (gets w + k)" using assms(3) by blast
  then have fails: "attempt_fails e url (gets ?w)"
    by (simp add: after_rounds_sel)
  have delay: "sleep_accepts (base_delay c e (draws ?w))"
    using assms(4) by blast
  have "\<forall>j<k. attempt_fails e url (gets w + j)"
    using assms(3) by (simp add: k_def)
  then have "make_request e c url w = request_loop e c url [int k..max_retries c - 1] ?w"
    unfolding make_request_def using k k34 assms(4) by (intro request_loop_rounds) simp_all
  also have "[int k..max_retries c - 1] = [int k]"
    using k by simp
  finally have loop: "make_request e c url w = request_loop e c url [int k] ?w" .
  have step: "attempt_body e c url (int k) ?w = (Return None, exhausted_world c e url w)"
    unfolding attempt_body_last [OF fails k delay] using assms(1)
    by (simp add: exhausted_world_def after_rounds_def k_def)
  show ?thesis
    unfolding loop by (simp add: step)
qed



lemma ThaiRath_fields:
  "max_retries ThaiRathNewsScraper = 3"
  "headers ThaiRathNewsScraper = default_headers"
  "timeout ThaiRathNewsScraper = 10"
  "delay_range ThaiRathNewsScraper = (1, 3)"
  "base_url ThaiRathNewsScraper = ''https://www.thairath.co.th/news/''"
  "news_category ThaiRathNewsScraper =
     [''royal'', ''society'', ''politic'', ''money'', ''foreign'', ''crime'']"
  by (simp_all add: ThaiRathNewsScraper_def BaseScraper_def)

lemma ThaiRath_delay_accepted:
  assumes "rand e n = 1 / 2"
  shows "sleep_accepts (base_delay ThaiRathNewsScraper e n)"
  using assms by (simp add: base_delay_def ThaiRath_fields uniform_def sleep_accepts_def)

text \<open>
  With at least one attempt allowed, the answers of the endpoint single out the
  attempt that ends a run in which every sleep is accepted: the first that succeeds
  or raises what the handler does not catch, or else the last one. The attempts
  before it fail.
\<close>

lemma make_request_run_shapes:
  assumes "0 < max_retries c"
  shows "\<exists>k. int k < max_retries c \<and> (\<forall>j<k. attempt_fails e url (g + j)) \<and>
           ((\<exists>d. attempt_succeeds e url (g + k) d) \<or>
            respond e url (g + k) = Other_exception \<or>
            (attempt_fails e url (g + k) \<and> int k = max_retries c - 1))"
proof (cases "\<forall>j<nat (max_retries c). attempt_fails e url (g + j)")
  case True
  define k where "k = nat (max_retries c) - 1"
  have k: "int k = max_retries c - 1" "k < nat (max_retries c)"
    using assms by (simp_all add: k_def)
  have "attempt_fails e url (g + k)"
    using True k(2) by blast
  moreover have "\<forall>j<k. attempt_fails e url (g + j)"
    using True k(2) by simp
  ultimately show ?thesis
    using k(1) by (intro exI [of _ k]) simp
next
  case False
  define k where "k = (LEAST j. \<not> attempt_fails e url (g + j))"
  from False obtain j where j: "j < nat (max_retries c)" "\<not> attempt_fails e url (g + j)"
    by blast
  have nf: "\<not> attempt_fails e url (g + k)"
    unfolding k_def using j(2) by (rule LeastI)
  have "k \<le> j"
    unfolding k_def using j(2) by (rule Least_le)
  with j(1) have lt: "int k < max_retries c" by simp
  have before: "\<forall>i<k. attempt_fails e url (g + i)"
    unfolding k_def using not_less_Least by blast
  have "(\<exists>d. attempt_succeeds e url (g + k) d) \<or> respond e url (g + k) = Other_exception"
    using nf by (cases "respond e url (g + k)")
      (simp_all add: attempt_fails_def attempt_succeeds_def)
  with lt before show ?thesis by blast
qed

section \<open>The fetch routine\<close>







text \<open>
  Claim C10. With \<open>max_retries\<close> zero or negative \<open>make_request\<close> returns None for
  every URL and leaves the world as it was: no request is sent, nothing is slept,
  nothing is logged, no random number is drawn.
\<close>

theorem make_request_no_retries:
  assumes "max_retries c \<le> 0"
  shows "make_request e c url w = (Inr None, w)"
  using assms by (simp add: make_request_def)

theorem make_request_no_retries_witness:
  "max_retries (ThaiRathNewsScraper\<lparr>max_retries := 0\<rparr>) \<le> 0 \<and>
   max_retries (ThaiRathNewsScraper\<lparr>max_retries := - 2\<rparr>) \<le> 0 \<and>
   make_request env_flaky (ThaiRathNewsScraper\<lparr>max_retries := 0\<rparr>) ''u'' world0
     = (Inr None, world0) \<and>
   make_request env_flaky (ThaiRathNewsScraper\<lparr>max_retries := - 2\<rparr>) ''u'' world0
     = (Inr None, world0)"
  using make_request_no_retries [of "ThaiRathNewsScraper\<lparr>max_retries := 0\<rparr>" env_flaky "''u''" world0]
    make_request_no_retries [of "ThaiRathNewsScraper\<lparr>max_retries := - 2\<rparr>" env_flaky "''u''" world0]
  by simp

section \<open>The extractors\<close>

text \<open>
  Claim C7. When \<open>make_request\<close> returns None for the URL, \<open>scrape_highlight_news\<close> and
  \<open>scrape_news_content\<close> both return None, and the world they leave is the one
  \<open>make_request\<close> left: no further request, sleep or log entry follows.
\<close>

theorem absent_fetch_propagates:
  assumes "make_request e c url w = (Inr None, w')"
  shows "scrape_highlight_news e c url category w = (Inr None, w') \<and>
         scrape_news_content e c url w = (Inr None, w')"
  using assms by (simp add: scrape_highlight_news_def scrape_news_content_def)

theorem absent_fetch_propagates_witness:
  "make_request env_down ThaiRathNewsScraper ''u'' world0 =
     (Inr None, exhausted_world ThaiRathNewsScraper env_down ''u'' world0) \<and>
   scrape_highlight_news env_down ThaiRathNewsScraper ''u'' ''royal'' world0 =
     (Inr None, exhausted_world ThaiRathNewsScraper env_down ''u'' world0) \<and>
   scrape_news_content env_down ThaiRathNewsScraper ''u'' world0 =
     (Inr None, exhausted_world ThaiRathNewsScraper env_down ''u'' world0)"
proof -
  have "0 < max_retries ThaiRathNewsScraper" "max_retries ThaiRathNewsScraper \<le> 35"
    by (simp_all add: ThaiRath_fields)
  moreover have "\<forall>j<nat (max_retries ThaiRathNewsScraper).
      attempt_fails env_down ''u'' (gets world0 + j)"
    by (simp add: attempt_fails_def env_down_def)
  moreover have "\<forall>n. sleep_accepts (base_delay ThaiRathNewsScraper env_down n)"
    by (simp add: ThaiRath_delay_accepted env_down_def)
  ultimately have h: "make_request env_down ThaiRathNewsScraper ''u'' world0 =
      (Inr None, exhausted_world ThaiRathNewsScraper env_down ''u'' world0)"
    by (rule make_request_exhausted)
  show ?thesis
    using absent_fetch_propagates [OF h, of "''royal''"] h by simp
qed

lemma make_request_first_try:
  assumes "0 < max_retries c" and "\<forall>n. sleep_accepts (base_delay c e n)"
    and "attempt_succeeds e url (gets w) d"
  shows "make_request e c url w =
    (Inr (Some d),
     \<lparr>trace = trace w @ [Sleep (base_delay c e (draws w)), Get url (headers c) (timeout c)],
      gets = Suc (gets w), draws = Suc (draws w)\<rparr>)"
  using make_request_success [of 0 c e url w d] assms
  by (simp add: success_world_def)

lemma ThaiRath_first_try:
  assumes "\<forall>n. rand e n = 1 / 2" and "attempt_succeeds e url (gets w) d"
  shows "make_request e ThaiRathNewsScraper url w =
    (Inr (Some d),
     \<lparr>trace = trace w @ [Sleep (base_delay ThaiRathNewsScraper e (draws w)),
         Get url (headers ThaiRathNewsScraper) (timeout ThaiRathNewsScraper)],
      gets = Suc (gets w), draws = Suc (draws w)\<rparr>)"
proof -
  have "0 < max_retries ThaiRathNewsScraper"
    by (simp add: ThaiRath_fields)
  moreover have "\<forall>n. sleep_accepts (base_delay ThaiRathNewsScraper e n)"
    using assms(1) by (simp add: ThaiRath_delay_accepted)
  ultimately show ?thesis
    using assms(2) by (rule make_request_first_try)
qed

lemma content_loop_concat:
  "content_loop ps acc = acc @ concat (map get_text ps)"
  by (induction ps arbitrary: acc) simp_all

lemma strip_hello: "strip (codepoints ''  Hello World  '') = codepoints ''Hello World''"
  by (simp add: strip_def is_space_def codepoints_def)

lemma strip_padded: "strip (codepoints ''  Part1  '') = codepoints ''Part1''"
  by (simp add: strip_def is_space_def codepoints_def)

lemma serving_first_try:
  "fst (make_request (env_serving page) ThaiRathNewsScraper url w) = Inr (Some page)"
proof -
  have "attempt_succeeds (env_serving page) url (gets w) page"
    by (simp add: attempt_succeeds_def env_serving_def raise_for_status_def)
  moreover have "\<forall>n. rand (env_serving page) n = 1 / 2"
    by (simp add: env_serving_def)
  ultimately show ?thesis
    by (simp add: ThaiRath_first_try)
qed

text \<open>
  Claim C2. The claim asks that a fetched article page without the body container
  yields None or the empty string. The code has no such guard: \<^verbatim>\<open>find\<close> returns None
  and the call of \<^verbatim>\<open>find_all\<close> on it raises \<^verbatim>\<open>AttributeError\<close>, which
  \<open>scrape_news_content\<close> passes on to its caller.
\<close>

theorem missing_article_body_raises:
  assumes "make_request e c url w = (Inr (Some doc), w')"
    and "find_tag doc ''div'' ''article-body'' = None"
  shows "scrape_news_content e c url w = (Inl AttributeError, w')"
  using assms by (simp add: scrape_news_content_def tag_bool_def)

theorem missing_article_body_raises_witness:
  "find_tag page_no_body ''div'' ''article-body'' = None \<and>
   fst (scrape_news_content (env_serving page_no_body) ThaiRathNewsScraper ''u'' world0) =
     Inl AttributeError"
proof -
  obtain w' where h: "make_request (env_serving page_no_body) ThaiRathNewsScraper ''u'' world0 =
      (Inr (Some page_no_body), w')"
    using serving_first_try [of page_no_body "''u''" world0]
    by (cases "make_request (env_serving page_no_body) ThaiRathNewsScraper ''u'' world0") simp
  have f: "find_tag page_no_body ''div'' ''article-body'' = None"
    by (simp add: find_tag_def page_no_body_def class_matches_def)
  show ?thesis
    using missing_article_body_raises [OF h f] f by simp
qed

text \<open>
  Claim C9, as the code has it. The guard \<^verbatim>\<open>if not soup\<close> fires only for None: a
  parsed document is truthy whatever it contains. So \<open>scrape_highlight_news\<close> and
  \<open>scrape_news_content\<close> return None exactly when \<open>make_request\<close> returned None, and a
  document without child nodes is not treated as a failed fetch.
\<close>

theorem none_only_for_absent_fetch:
  "(fst (scrape_highlight_news e c url category w) = Inr None \<longleftrightarrow>
      fst (make_request e c url w) = Inr None) \<and>
   (fst (scrape_news_content e c url w) = Inr None \<longleftrightarrow>
      fst (make_request e c url w) = Inr None)"
  by (auto simp add: scrape_highlight_news_def scrape_news_content_def tag_bool_def
      split: prod.splits sum.splits option.splits)

theorem empty_document_counterexample:
  "fst (make_request (env_serving page_empty) ThaiRathNewsScraper ''u'' world0) =
     Inr (Some page_empty) \<and>
   descendants page_empty = [] \<and>
   fst (scrape_news_content (env_serving page_empty) ThaiRathNewsScraper ''u'' world0) \<noteq>
     Inr None \<and>
   fst (scrape_highlight_news (env_serving page_empty) ThaiRathNewsScraper ''u'' ''royal''
     world0) \<noteq> Inr None"
proof -
  let ?m = "make_request (env_serving page_empty) ThaiRathNewsScraper ''u'' world0"
  have h: "fst ?m = Inr (Some page_empty)"
    by (rule serving_first_try)
  obtain r w' where m: "?m = (r, w')" by (cases ?m)
  with h have r: "r = Inr (Some page_empty)" by simp
  have d: "descendants page_empty = []"
    by (simp add: page_empty_def)
  have f: "find_tag page_empty ''div'' v = None" for v
    by (simp add: find_tag_def d)
  have "fst (scrape_news_content (env_serving page_empty) ThaiRathNewsScraper ''u'' world0) =
      Inl AttributeError"
    by (simp add: scrape_news_content_def m r tag_bool_def f)
  moreover have "fst (scrape_highlight_news (env_serving page_empty) ThaiRathNewsScraper ''u''
      ''royal'' world0) = Inl AttributeError"
    by (simp add: scrape_highlight_news_def m r tag_bool_def f)
  ultimately show ?thesis
    by (simp add: h d)
qed

text \<open>
  Claim C4, as the code has it. For a fetched article page whose body container is
  present, \<open>scrape_news_content\<close> returns the texts of all paragraph elements inside the
  container, in document order, joined without separator. The text of a paragraph is
  taken as \<^verbatim>\<open>getText()\<close> gives it, with its surrounding whitespace.
\<close>

theorem article_content_concatenates:
  assumes "make_request e c url w = (Inr (Some doc), w')"
    and "find_tag doc ''div'' ''article-body'' = Some body"
  shows "scrape_news_content e c url w =
    (Inr (Some (concat (map get_text (find_all body ''p'')))), w')"
  using assms by (simp add: scrape_news_content_def tag_bool_def content_loop_concat)

theorem article_content_concatenates_witness:
  "find_tag page_article ''div'' ''article-body'' =
     Some (Tag ''div'' [''article-body''] []
       [Tag ''p'' [] [] [NavigableString (codepoints ''Part1'')],
        Tag ''p'' [] [] [NavigableString (codepoints ''Part2'')]]) \<and>
   fst (scrape_news_content (env_serving page_article) ThaiRathNewsScraper ''u'' world0) =
     Inr (Some (codepoints ''Part1Part2''))"
proof -
  let ?body = "Tag ''div'' [''article-body''] []
       [Tag ''p'' [] [] [NavigableString (codepoints ''Part1'')],
        Tag ''p'' [] [] [NavigableString (codepoints ''Part2'')]]"
  obtain w' where h: "make_request (env_serving page_article) ThaiRathNewsScraper ''u'' world0 =
      (Inr (Some page_article), w')"
    using serving_first_try [of page_article "''u''" world0]
    by (cases "make_request (env_serving page_article) ThaiRathNewsScraper ''u'' world0") simp
  have f: "find_tag page_article ''div'' ''article-body'' = Some ?body"
    by (simp add: find_tag_def page_article_def class_matches_def)
  have t: "concat (map get_text (find_all ?body ''p'')) = codepoints ''Part1Part2''"
    by (simp add: find_all_def get_text_def codepoints_def)
  show ?thesis
    using article_content_concatenates [OF h f] f by (simp add: t)
qed

theorem stripped_paragraphs_counterexample:
  "find_tag page_padded ''div'' ''article-body'' = Some body_padded \<and>
   fst (scrape_news_content (env_serving page_padded) ThaiRathNewsScraper ''u'' world0) =
     Inr (Some (codepoints ''  Part1  '')) \<and>
   stripped_paragraphs body_padded = codepoints ''Part1'' \<and>
   fst (scrape_news_content (env_serving page_padded) ThaiRathNewsScraper ''u'' world0) \<noteq>
     Inr (Some (stripped_paragraphs body_padded))"
proof -
  let ?m = "make_request (env_serving page_padded) ThaiRathNewsScraper ''u'' world0"
  have h: "fst ?m = Inr (Some page_padded)"
    by (rule serving_first_try)
  obtain r w' where m: "?m = (r, w')" by (cases ?m)
  with h have r: "r = Inr (Some page_padded)" by simp
  have f: "find_tag page_padded ''div'' ''article-body'' = Some body_padded"
    by (simp add: find_tag_def page_padded_def body_padded_def class_matches_def)
  have p: "find_all body_padded ''p'' =
      [Tag ''p'' [] [] [NavigableString (codepoints ''  Part1  '')]]"
    by (simp add: find_all_def body_padded_def)
  have g: "get_text (Tag ''p'' [] [] [NavigableString (codepoints ''  Part1  '')]) =
      codepoints ''  Part1  ''"
    by (simp add: get_text_def)
  have s: "stripped_paragraphs body_padded = codepoints ''Part1''"
    by (simp add: stripped_paragraphs_def p g strip_padded)
  have c: "fst (scrape_news_content (env_serving page_padded) ThaiRathNewsScraper ''u'' world0) =
     Inr (Some (codepoints ''  Part1  ''))"
    by (simp add: scrape_news_content_def m r tag_bool_def f p g)
  have "codepoints ''  Part1  '' \<noteq> codepoints ''Part1''"
    by (simp add: codepoints_def)
  then show ?thesis
    by (simp add: f s c)
qed

section \<open>Text extraction\<close>

text \<open>
  Claim C8, as the code has it. \<open>extract_text\<close> never raises. On None it returns the
  default and does nothing else; on an object without text extraction it returns the
  default, whether the object is false or the extraction throws; on an empty text
  node, which is false, it returns the default; on every other node of a document it
  returns the text pieces of the node, each stripped of surrounding whitespace, the
  empty ones left out, joined without separator. For such a node with one text piece
  this is that piece stripped.
\<close>

theorem extract_text_total:
  "(\<exists>s. fst (extract_text el d w) = Inr s) \<and>
   extract_text PyNone d w = (Inr d, w) \<and>
   fst (extract_text (PyObject b) d w) = Inr d \<and>
   (\<not> node_bool t \<longrightarrow> extract_text (PyNode t) d w = (Inr d, w)) \<and>
   (node_bool t \<longrightarrow> extract_text (PyNode t) d w = (Inr (get_text_strip t), w)) \<and>
   (node_bool t \<and> all_strings t = [s] \<longrightarrow> extract_text (PyNode t) d w = (Inr (strip s), w))"
proof (intro conjI impI)
  show "\<exists>s. fst (extract_text el d w) = Inr s"
    by (simp add: extract_text_def split: sum.splits)
  show "extract_text PyNone d w = (Inr d, w)"
    by (simp add: extract_text_def extract_text_try_def)
  show "fst (extract_text (PyObject b) d w) = Inr d"
    by (simp add: extract_text_def extract_text_try_def)
  show "extract_text (PyNode t) d w = (Inr d, w)" if "\<not> node_bool t"
    using that by (simp add: extract_text_def extract_text_try_def)
  show "extract_text (PyNode t) d w = (Inr (get_text_strip t), w)" if "node_bool t"
    using that by (simp add: extract_text_def extract_text_try_def)
  show "extract_text (PyNode t) d w = (Inr (strip s), w)"
    if "node_bool t \<and> all_strings t = [s]"
    using that by (simp add: extract_text_def extract_text_try_def get_text_strip_def)
qed

theorem extract_text_total_witness:
  "node_bool tag_hello \<and>
   all_strings tag_hello = [codepoints ''  Hello World  ''] \<and>
   extract_text (PyNode tag_hello) [] world0 = (Inr (codepoints ''Hello World''), world0) \<and>
   extract_text (PyNode text_nbsp) [] world0 = (Inr (codepoints ''Hello''), world0) \<and>
   extract_text (PyNode text_empty) (codepoints ''n/a'') world0 =
     (Inr (codepoints ''n/a''), world0) \<and>
   extract_text PyNone [] world0 = (Inr [], world0) \<and>
   fst (extract_text (PyObject True) (codepoints ''n/a'') world0) = Inr (codepoints ''n/a'')"
proof -
  have b: "node_bool tag_hello"
    by (simp add: tag_hello_def tag_bool_def)
  have a: "all_strings tag_hello = [codepoints ''  Hello World  '']"
    by (simp add: tag_hello_def)
  have nb: "node_bool text_nbsp"
    and na: "all_strings text_nbsp = [160 # codepoints ''Hello'' @ [160, 12288]]"
    by (simp_all add: text_nbsp_def)
  have ns: "strip (160 # codepoints ''Hello'' @ [160, 12288]) = codepoints ''Hello''"
    by (simp add: strip_def is_space_def codepoints_def)
  have e: "\<not> node_bool text_empty"
    by (simp add: text_empty_def)
  have "extract_text (PyNode tag_hello) [] world0 =
      (Inr (strip (codepoints ''  Hello World  '')), world0)"
    using extract_text_total
      [of PyNone "[]" world0 True tag_hello "codepoints ''  Hello World  ''"] a b
    by blast
  moreover have "extract_text (PyNode text_nbsp) [] world0 =
      (Inr (strip (160 # codepoints ''Hello'' @ [160, 12288])), world0)"
    using extract_text_total
      [of PyNone "[]" world0 True text_nbsp "160 # codepoints ''Hello'' @ [160, 12288]"] na nb
    by blast
  moreover have "extract_text (PyNode text_empty) (codepoints ''n/a'') world0 =
      (Inr (codepoints ''n/a''), world0)"
    using extract_text_total [of PyNone "codepoints ''n/a''" world0 True text_empty "[]"] e
    by blast
  moreover have "extract_text PyNone [] world0 = (Inr [], world0)"
    using extract_text_total [of PyNone "[]" world0 True tag_hello "[]"]
    by blast
  moreover have "fst (extract_text (PyObject True) (codepoints ''n/a'') world0) =
      Inr (codepoints ''n/a'')"
    using extract_text_total [of PyNone "codepoints ''n/a''" world0 True tag_hello "[]"]
    by blast
  ultimately show ?thesis
    using a b by (simp add: strip_hello ns)
qed

theorem stripped_text_counterexample:
  "fst (extract_text (PyNode tag_nested) [] world0) = Inr (codepoints ''HelloWorld'') \<and>
   strip (get_text tag_nested) = codepoints ''Hello World'' \<and>
   fst (extract_text (PyNode tag_nested) [] world0) \<noteq> Inr (strip (get_text tag_nested))"
proof -
  have a: "all_strings tag_nested = [codepoints ''Hello '', codepoints ''World'']"
    by (simp add: tag_nested_def)
  have s: "strip (codepoints ''Hello '') = codepoints ''Hello''"
    "strip (codepoints ''World'') = codepoints ''World''"
    "strip (codepoints ''Hello '' @ codepoints ''World'') = codepoints ''Hello World''"
    by (simp_all add: strip_def is_space_def codepoints_def)
  have ne: "codepoints ''Hello'' \<noteq> []" "codepoints ''World'' \<noteq> []"
    "codepoints ''Hello'' @ codepoints ''World'' = codepoints ''HelloWorld''"
    "codepoints ''HelloWorld'' \<noteq> codepoints ''Hello World''"
    by (simp_all add: codepoints_def)
  have b: "node_bool tag_nested"
    by (simp add: tag_nested_def tag_bool_def)
  have e: "fst (extract_text (PyNode tag_nested) [] world0) = Inr (codepoints ''HelloWorld'')"
    by (simp add: extract_text_def extract_text_try_def b get_text_strip_def a s ne)
  have g: "strip (get_text tag_nested) = codepoints ''Hello World''"
    by (simp add: get_text_def a s)
  show ?thesis
    by (simp add: e g ne)
qed

section \<open>The driver and the listing\<close>

text \<open>
  What the loop over the links builds when it runs to its end: one record per link,
  in order, after the records it started with.
\<close>

lemma highlight_loop_records:
  assumes "highlight_loop e c url category links acc w = (Inr items, w')"
  shows "map title items = map title acc @ map (\<lambda>a. tag_get a ''title'') links \<and>
         map link items = map link acc @ map (\<lambda>a. url @ py_str (tag_get a ''href'')) links \<and>
         map news_type items = map news_type acc @ map (\<lambda>a. category) links"
  using assms
proof (induction links arbitrary: acc w)
  case Nil
  then show ?case by simp
next
  case (Cons a links)
  let ?l = "url @ py_str (tag_get a ''href'')"
  obtain r w1 where s: "scrape_news_content e c ?l w = (r, w1)"
    by (cases "scrape_news_content e c ?l w")
  show ?case
  proof (cases r)
    case (Inl x)
    with Cons.prems s show ?thesis by (simp add: Let_def)
  next
    case (Inr body_text)
    with Cons.prems s have "highlight_loop e c url category links
        (acc @ [\<lparr>title = tag_get a ''title'', link = ?l, news_type = category,
                  content = body_text\<rparr>]) w1 = (Inr items, w')"
      by (simp add: Let_def)
    from Cons.IH [OF this] show ?thesis by simp
  qed
qed

lemma highlight_news_records:
  assumes "make_request e c url w = (Inr (Some doc), w1)"
    and "find_tag doc ''div'' ''slick-track'' = Some track"
    and "scrape_highlight_news e c url category w = (Inr (Some items), w')"
  shows "map title items = map (\<lambda>a. tag_get a ''title'') (find_all track ''a'') \<and>
         map link items = map (\<lambda>a. url @ py_str (tag_get a ''href'')) (find_all track ''a'') \<and>
         map news_type items = map (\<lambda>a. category) (find_all track ''a'')"
proof -
  obtain r w2 where l: "highlight_loop e c url category (find_all track ''a'') [] w1 = (r, w2)"
    by (cases "highlight_loop e c url category (find_all track ''a'') [] w1")
  with assms have "r = Inr items"
    by (simp add: scrape_highlight_news_def tag_bool_def split: sum.splits)
  with l highlight_loop_records [of e c url category "find_all track ''a''" "[]" w1 items w2]
  show ?thesis by simp
qed

lemma news_content_first_try:
  assumes "\<forall>n. rand e n = 1 / 2" and "attempt_succeeds e url (gets w) doc"
  shows "scrape_news_content e ThaiRathNewsScraper url w =
    ((case find_tag doc ''div'' ''article-body'' of
        None \<Rightarrow> Inl AttributeError
      | Some body \<Rightarrow> Inr (Some (concat (map get_text (find_all body ''p''))))),
     \<lparr>trace = trace w @ [Sleep (base_delay ThaiRathNewsScraper e (draws w)),
         Get url (headers ThaiRathNewsScraper) (timeout ThaiRathNewsScraper)],
      gets = Suc (gets w), draws = Suc (draws w)\<rparr>)"
  by (simp add: scrape_news_content_def ThaiRath_first_try [OF assms] tag_bool_def
      content_loop_concat split: option.splits)

lemma env_site_rand: "\<forall>n. rand (env_site article) n = 1 / 2"
  by (simp add: env_site_def)

lemma page_listing_links:
  "find_tag page_listing ''div'' ''slick-track'' =
     Some (Tag ''div'' [''slick-track''] []
       [Tag ''a'' [] [(''href'', ''/a1''), (''title'', ''T1'')] [],
        Tag ''a'' [] [(''href'', ''/a2''), (''title'', ''T2'')] []])"
  "find_all (Tag ''div'' [''slick-track''] []
       [Tag ''a'' [] [(''href'', ''/a1''), (''title'', ''T1'')] [],
        Tag ''a'' [] [(''href'', ''/a2''), (''title'', ''T2'')] []]) ''a'' =
     [Tag ''a'' [] [(''href'', ''/a1''), (''title'', ''T1'')] [],
      Tag ''a'' [] [(''href'', ''/a2''), (''title'', ''T2'')] []]"
  by (simp_all add: find_tag_def find_all_def page_listing_def class_matches_def)

lemma env_site_listing:
  "attempt_succeeds (env_site article) listing_url n page_listing"
  by (simp add: attempt_succeeds_def env_site_def raise_for_status_def)

lemma env_site_article:
  "attempt_succeeds (env_site article) (listing_url @ ''/a1'') n article"
  "attempt_succeeds (env_site article) (listing_url @ ''/a2'') n article"
  by (simp_all add: attempt_succeeds_def env_site_def raise_for_status_def listing_url_def)

text \<open>
  The listing of the specification's example: two links in the carousel, every
  article page well formed. The records come in document order, each link is the
  listing URL followed by the \<^verbatim>\<open>href\<close>, and the category is the one passed in.
\<close>

lemma highlight_news_example:
  "fst (scrape_highlight_news (env_site page_article) ThaiRathNewsScraper listing_url ''royal''
     world0) =
   Inr (Some
     [\<lparr>title = Some ''T1'', link = listing_url @ ''/a1'', news_type = ''royal'',
        content = Some (codepoints ''Part1Part2'')\<rparr>,
      \<lparr>title = Some ''T2'', link = listing_url @ ''/a2'', news_type = ''royal'',
        content = Some (codepoints ''Part1Part2'')\<rparr>])"
proof -
  have body: "find_tag page_article ''div'' ''article-body'' =
     Some (Tag ''div'' [''article-body''] []
       [Tag ''p'' [] [] [NavigableString (codepoints ''Part1'')],
        Tag ''p'' [] [] [NavigableString (codepoints ''Part2'')]])"
    by (simp add: find_tag_def page_article_def class_matches_def)
  have ptext: "concat (map get_text (find_all (Tag ''div'' [''article-body''] []
       [Tag ''p'' [] [] [NavigableString (codepoints ''Part1'')],
        Tag ''p'' [] [] [NavigableString (codepoints ''Part2'')]]) ''p'')) =
      codepoints ''Part1Part2''"
    by (simp add: find_all_def get_text_def codepoints_def)
  show ?thesis
    by (simp add: scrape_highlight_news_def
        ThaiRath_first_try [OF env_site_rand env_site_listing]
        news_content_first_try [OF env_site_rand env_site_article(1)]
        news_content_first_try [OF env_site_rand env_site_article(2)]
        tag_bool_def page_listing_links body ptext Let_def)
qed

text \<open>
  Claim C3. The claim describes a driver that calls the listing extractor with the
  listing URL and the category, once per category. The code's call passes the URL
  only, while \<open>scrape_highlight_news\<close> requires both parameters: the first call raises
  \<^verbatim>\<open>TypeError\<close> before anything is fetched or slept, and \<open>scrape\<close> ends there.
\<close>

theorem scrape_raises_type_error:
  "scrape e ThaiRathNewsScraper url w = (Inl TypeError, w)"
  by (simp add: scrape_def ThaiRath_fields)

text \<open>
  Claim C6. The claim promises one record per link of the carousel for every fetched
  listing page with a carousel. On the code this fails as soon as one linked article
  page has no body container: the \<^verbatim>\<open>AttributeError\<close> of \<open>scrape_news_content\<close> is not
  caught in the loop over the links, and \<open>scrape_highlight_news\<close> returns no record.
\<close>

theorem highlight_news_aborts_on_broken_article:
  "fst (make_request (env_site page_no_body) ThaiRathNewsScraper listing_url world0) =
     Inr (Some page_listing) \<and>
   map_option (\<lambda>t. length (find_all t ''a''))
     (find_tag page_listing ''div'' ''slick-track'') = Some 2 \<and>
   fst (scrape_highlight_news (env_site page_no_body) ThaiRathNewsScraper listing_url ''royal''
     world0) = Inl AttributeError"
proof -
  have body: "find_tag page_no_body ''div'' ''article-body'' = None"
    by (simp add: find_tag_def page_no_body_def class_matches_def)
  show ?thesis
    by (simp add: scrape_highlight_news_def
        ThaiRath_first_try [OF env_site_rand env_site_listing]
        news_content_first_try [OF env_site_rand env_site_article(1)]
        tag_bool_def page_listing_links body Let_def)
qed

end
